theory Spec2Isabelle
  imports Main "HOL-Library.Word"
begin

section \<open>JavaScript strings and values\<close>

text \<open>
  A JavaScript string is a sequence of UTF-16 code units. The regular expression of
  \<^verbatim>\<open>parseHash\<close> has no \<^verbatim>\<open>u\<close> flag, so it works on code units, and its \<^verbatim>\<open>.\<close>
  depends on code units beyond one byte (U+2028, U+2029): a code unit is a 16-bit word.
  \<open>ascii\<close> writes the ASCII literals of the source.
\<close>

type_synonym code_unit = "16 word"
type_synonym js_string = "code_unit list"

definition ascii :: "string \<Rightarrow> js_string" where
  "ascii s = map of_char s"

text \<open>
  The values a data connection can deliver. Numbers are kept as integers (only their
  truthiness is used); an object is the list of its own properties.
\<close>

datatype js_value =
    JUndefined
  | JNull
  | JBool bool
  | JNum int
  | JStr js_string
  | JArr "js_value list"
  | JObj "(js_string \<times> js_value) list"

text \<open>\<^verbatim>\<open>ToBoolean\<close>: what \<^verbatim>\<open>x && ...\<close> and \<^verbatim>\<open>!x\<close> test.\<close>

fun truthy :: "js_value \<Rightarrow> bool" where
  "truthy JUndefined = False"
| "truthy JNull = False"
| "truthy (JBool b) = b"
| "truthy (JNum n) = (n \<noteq> 0)"
| "truthy (JStr s) = (s \<noteq> [])"
| "truthy (JArr xs) = True"
| "truthy (JObj ps) = True"

text \<open>
  Property read \<^verbatim>\<open>v.k\<close> on a value that is not \<^verbatim>\<open>null\<close> or \<^verbatim>\<open>undefined\<close>, for
  the two keys the source reads (\<^verbatim>\<open>type\<close>, \<^verbatim>\<open>dataUrl\<close>): no primitive and no
  prototype defines them, so only an object's own property gives a value.
\<close>

fun get_prop :: "js_value \<Rightarrow> js_string \<Rightarrow> js_value" where
  "get_prop (JObj ps) k = (case map_of ps k of Some v \<Rightarrow> v | None \<Rightarrow> JUndefined)"
| "get_prop v k = JUndefined"

text \<open>Truthiness of a state variable that holds \<^verbatim>\<open>null\<close> or a string.\<close>

fun truthy_str :: "js_string option \<Rightarrow> bool" where
  "truthy_str None = False"
| "truthy_str (Some s) = (s \<noteq> [])"


section \<open>The router (main.jsx)\<close>

text \<open>
  \<^verbatim>\<open>const match = hash.match(/^#\/sign\/(.+)$/);\<close>

  The pattern is anchored at the start, reads the literal \<^verbatim>\<open>#/sign/\<close>, then one or more
  code units matched by \<^verbatim>\<open>.\<close>, greedily, into group 1, and must then stand at the end of
  the input (\<^verbatim>\<open>$\<close> without the \<^verbatim>\<open>m\<close> flag). Without the \<^verbatim>\<open>s\<close> flag, \<^verbatim>\<open>.\<close> matches every
  code unit except the four line terminators. The greedy run stops at the end of the
  input or before a line terminator; giving code units back cannot help, since a shorter
  run ends before a code unit and not at the end of the input. So the match succeeds
  exactly when the longest run is not empty and reaches the end.
\<close>

definition line_terminator :: "code_unit \<Rightarrow> bool" where
  "line_terminator c = (c = 0x000A \<or> c = 0x000D \<or> c = 0x2028 \<or> c = 0x2029)"

definition dot :: "code_unit \<Rightarrow> bool" where
  "dot c = (\<not> line_terminator c)"

fun strip_literal :: "js_string \<Rightarrow> js_string \<Rightarrow> js_string option" where
  "strip_literal [] s = Some s"
| "strip_literal (p # ps) [] = None"
| "strip_literal (p # ps) (c # cs) = (if p = c then strip_literal ps cs else None)"

definition match_sign :: "js_string \<Rightarrow> js_string option" where
  "match_sign hash =
     (case strip_literal (ascii ''#/sign/'') hash of
        None \<Rightarrow> None
      | Some rest \<Rightarrow>
          (let group1 = takeWhile dot rest; after = dropWhile dot rest
           in if group1 \<noteq> [] \<and> after = [] then Some group1 else None))"

datatype route = PageSign js_string | PageMain

definition parseHash :: "js_string \<Rightarrow> route" where
  "parseHash hash = (case match_sign hash of Some peerId \<Rightarrow> PageSign peerId | None \<Rightarrow> PageMain)"

datatype page = MobileSignPage js_string | ParentalAbsenceForm

text \<open>
  \<^verbatim>\<open>App\<close> keeps \<^verbatim>\<open>parseHash()\<close> of the current hash in its state (initially, and after
  every \<^verbatim>\<open>hashchange\<close>) and renders from it.
\<close>

fun render_route :: "route \<Rightarrow> page" where
  "render_route (PageSign peerId) = MobileSignPage peerId"
| "render_route PageMain = ParentalAbsenceForm"

definition App :: "js_string \<Rightarrow> page" where
  "App hash = render_route (parseHash hash)"


section \<open>The signing URL (QRSignatureModal)\<close>

text \<open>
  \<^verbatim>\<open>const signingUrl = peerId ? `${origin}${pathname}#/sign/${peerId}` : null;\<close>
\<close>

definition signingUrl :: "js_string \<Rightarrow> js_string \<Rightarrow> js_string option \<Rightarrow> js_string option" where
  "signingUrl origin pathname peerId =
     (case peerId of
        None \<Rightarrow> None
      | Some i \<Rightarrow> if i = [] then None else Some (origin @ pathname @ ascii ''#/sign/'' @ i))"

text \<open>
  The second device opens the URL and reads \<^verbatim>\<open>window.location.hash\<close>. The browser
  parses the URL string as the URL Standard says: it strips leading and trailing C0
  controls and spaces, removes every tab and newline, starts the fragment after the first
  \<^verbatim>\<open>#\<close>, and replaces every code point of the fragment that is in the fragment
  percent-encode set (C0 controls, space, \<^verbatim>\<open>"\<close>, \<^verbatim>\<open><\<close>, \<^verbatim>\<open>>\<close>, \<^verbatim>\<open>`\<close>, and all
  above \<^verbatim>\<open>~\<close>) by the percent-encoded bytes of its UTF-8 form. The getter gives the
  empty string for an empty fragment and \<^verbatim>\<open>#\<close> with the fragment otherwise. The part of
  the URL before the \<^verbatim>\<open>#\<close> is taken to parse, as the URL of a page does.
\<close>

definition c0_control_or_space :: "code_unit \<Rightarrow> bool" where
  "c0_control_or_space c \<longleftrightarrow> c \<le> 0x20"

definition tab_or_newline :: "code_unit \<Rightarrow> bool" where
  "tab_or_newline c \<longleftrightarrow> c = 0x09 \<or> c = 0x0A \<or> c = 0x0D"

definition fragment_percent_encode :: "code_unit \<Rightarrow> bool" where
  "fragment_percent_encode c \<longleftrightarrow>
     c \<le> 0x20 \<or> c = 0x22 \<or> c = 0x3C \<or> c = 0x3E \<or> c = 0x60 \<or> 0x7E < c"

text \<open>
  The string is read as scalar values: a surrogate pair is one code point, a lone
  surrogate is replaced by U+FFFD.
\<close>

definition high_surrogate :: "code_unit \<Rightarrow> bool" where
  "high_surrogate c \<longleftrightarrow> 0xD800 \<le> c \<and> c \<le> 0xDBFF"

definition low_surrogate :: "code_unit \<Rightarrow> bool" where
  "low_surrogate c \<longleftrightarrow> 0xDC00 \<le> c \<and> c \<le> 0xDFFF"

definition scalar_of_unit :: "code_unit \<Rightarrow> nat" where
  "scalar_of_unit c = (if high_surrogate c \<or> low_surrogate c then 0xFFFD else unat c)"

definition scalar_of_pair :: "code_unit \<Rightarrow> code_unit \<Rightarrow> nat" where
  "scalar_of_pair c d = 0x10000 + (unat c - 0xD800) * 0x400 + (unat d - 0xDC00)"

definition utf8 :: "nat \<Rightarrow> nat list" where
  "utf8 n =
     (if n < 0x80 then [n]
      else if n < 0x800 then [0xC0 + n div 0x40, 0x80 + n mod 0x40]
      else if n < 0x10000 then [0xE0 + n div 0x1000, 0x80 + n div 0x40 mod 0x40, 0x80 + n mod 0x40]
      else [0xF0 + n div 0x40000, 0x80 + n div 0x1000 mod 0x40, 0x80 + n div 0x40 mod 0x40,
            0x80 + n mod 0x40])"

definition hex_digit :: "nat \<Rightarrow> code_unit" where
  "hex_digit n = ascii ''0123456789ABCDEF'' ! (n mod 16)"

definition percent_byte :: "nat \<Rightarrow> js_string" where
  "percent_byte b = [0x25, hex_digit (b div 16), hex_digit b]"

definition percent_utf8 :: "nat \<Rightarrow> js_string" where
  "percent_utf8 n = concat (map percent_byte (utf8 n))"

text \<open>
  A code unit outside the percent-encode set is an ASCII character and stays as it is;
  every code unit above \<^verbatim>\<open>~\<close>, surrogates included, is in the set.
\<close>

fun encode_fragment :: "js_string \<Rightarrow> js_string" where
  "encode_fragment [] = []"
| "encode_fragment [c] =
     (if fragment_percent_encode c then percent_utf8 (scalar_of_unit c) else [c])"
| "encode_fragment (c # d # cs) =
     (if \<not> fragment_percent_encode c then c # encode_fragment (d # cs)
      else if high_surrogate c \<and> low_surrogate d
        then percent_utf8 (scalar_of_pair c d) @ encode_fragment cs
      else percent_utf8 (scalar_of_unit c) @ encode_fragment (d # cs))"

definition strip_c0_space :: "js_string \<Rightarrow> js_string" where
  "strip_c0_space s = rev (dropWhile c0_control_or_space (rev (dropWhile c0_control_or_space s)))"

definition location_hash :: "js_string \<Rightarrow> js_string" where
  "location_hash url =
     (let input = filter (\<lambda>c. \<not> tab_or_newline c) (strip_c0_space url)
      in case dropWhile (\<lambda>c. c \<noteq> 0x23) input of
           [] \<Rightarrow> []
         | h # fragment \<Rightarrow> if fragment = [] then [] else 0x23 # encode_fragment fragment)"

text \<open>
  The code units a fragment carries unchanged: printable ASCII other than space,
  \<^verbatim>\<open>"\<close>, \<^verbatim>\<open><\<close>, \<^verbatim>\<open>>\<close> and \<^verbatim>\<open>`\<close>. The letters, digits and \<^verbatim>\<open>- . _ ~\<close> of a
  URL-safe session id are among them.
\<close>

definition fragment_safe :: "code_unit \<Rightarrow> bool" where
  "fragment_safe c \<longleftrightarrow> \<not> fragment_percent_encode c"

definition scan_and_route :: "js_string \<Rightarrow> js_string \<Rightarrow> js_string \<Rightarrow> route option" where
  "scan_and_route origin pathname peerId =
     map_option (\<lambda>url. parseHash (location_hash url)) (signingUrl origin pathname (Some peerId))"


section \<open>The host session (QRSignatureModal)\<close>

text \<open>
  The component's state is \<^verbatim>\<open>peerId\<close>, \<^verbatim>\<open>status\<close> (\<^verbatim>\<open>'connecting'\<close>,
  \<^verbatim>\<open>'waiting'\<close>, \<^verbatim>\<open>'connected'\<close>, \<^verbatim>\<open>'received'\<close>) and \<^verbatim>\<open>error\<close>; there is
  no \<^verbatim>\<open>'error'\<close> status on this side. The effects of the handlers are recorded in the
  state as well: the connections on which \<^verbatim>\<open>conn.on('data', ...)\<close> was registered
  (every \<^verbatim>\<open>connection\<close> event brings a new connection object), the arguments of the
  calls of \<^verbatim>\<open>onSignature\<close>, the delays of the pending \<^verbatim>\<open>setTimeout\<close> callbacks and the
  number of calls of \<^verbatim>\<open>peer.destroy()\<close>. \<^verbatim>\<open>console.error\<close> is left out.
\<close>

type_synonym conn = nat

datatype host_status = HConnecting | HWaiting | HConnected | HReceived

record host =
  peerId :: "js_string option"
  status :: host_status
  error :: "js_string option"
  wired :: "conn list"
  onSignature_calls :: "js_value list"
  timeouts :: "nat list"
  destroy_calls :: nat

definition host_init :: host where
  "host_init = \<lparr>peerId = None, status = HConnecting, error = None, wired = [],
     onSignature_calls = [], timeouts = [], destroy_calls = 0\<rparr>"

text \<open>The message set by the \<^verbatim>\<open>error\<close> handler, its accented letters written as code units.\<close>

definition error_message :: js_string where
  "error_message = ascii ''Kapcsol'' @ [0xF3] @ ascii ''d'' @ [0xE1] @ ascii ''si hiba. K'' @ [0xE9]
     @ ascii ''rlek pr'' @ [0xF3] @ ascii ''b'' @ [0xE1] @ ascii ''ld '' @ [0xFA] @ ascii ''jra.''"

text \<open>\<^verbatim>\<open>data && data.type === 'signature' && data.dataUrl\<close>\<close>

definition accepts :: "js_value \<Rightarrow> bool" where
  "accepts data \<longleftrightarrow>
     truthy data \<and> get_prop data (ascii ''type'') = JStr (ascii ''signature'')
       \<and> truthy (get_prop data (ascii ''dataUrl''))"

text \<open>
  The \<^verbatim>\<open>data\<close> handler: \<^verbatim>\<open>setStatus('received'); onSignature(data.dataUrl);
  setTimeout(() => peer.destroy(), 500)\<close> under the guard, nothing otherwise.
\<close>

definition on_data :: "host \<Rightarrow> js_value \<Rightarrow> host" where
  "on_data h data =
     (if accepts data
      then h\<lparr>status := HReceived,
             onSignature_calls := onSignature_calls h @ [get_prop data (ascii ''dataUrl'')],
             timeouts := timeouts h @ [500]\<rparr>
      else h)"

text \<open>
  What can happen to the component: the four events of the peer and its connections, a
  pending timeout coming due, and the cleanup of the effect (unmount).
\<close>

datatype host_event =
    PeerOpen js_string
  | PeerConnection conn
  | ConnData conn js_value
  | ConnClose conn
  | PeerError
  | Timeout
  | Unmount

fun host_step :: "host \<Rightarrow> host_event \<Rightarrow> host" where
  "host_step h (PeerOpen i) = h\<lparr>peerId := Some i, status := HWaiting\<rparr>"
| "host_step h (PeerConnection c) = h\<lparr>status := HConnected, wired := wired h @ [c]\<rparr>"
| "host_step h (ConnData c data) = (if c \<in> set (wired h) then on_data h data else h)"
| "host_step h (ConnClose c) = h"
| "host_step h PeerError = h\<lparr>error := Some error_message\<rparr>"
| "host_step h Timeout =
     (case timeouts h of
        [] \<Rightarrow> h
      | t # ts \<Rightarrow> h\<lparr>timeouts := ts, destroy_calls := destroy_calls h + 1\<rparr>)"
| "host_step h Unmount = h\<lparr>destroy_calls := destroy_calls h + 1\<rparr>"

definition host_run :: "host \<Rightarrow> host_event list \<Rightarrow> host" where
  "host_run = foldl host_step"

text \<open>
  A call either returns, with the state it leaves, or throws.
\<close>

datatype 'a outcome = Returned 'a | Thrown

text \<open>
  Modelled from the spec: the transport's \<^verbatim>\<open>destroy(endpoint)\<close> (\<^verbatim>\<open>Peer.destroy\<close> of
  the PeerJS library, which is not part of the repository) releases all local resources
  and is meant to run on every exit path: a call that returns on every endpoint,
  destroyed before or not. The state counts the calls.
\<close>

definition peer_destroy :: "host \<Rightarrow> host outcome" where
  "peer_destroy h = Returned (h\<lparr>destroy_calls := destroy_calls h + 1\<rparr>)"

text \<open>
  The cleanup of the effect, \<^verbatim>\<open>return () => { peer.destroy(); }\<close>, as a call. \<^verbatim>\<open>peer\<close>
  is the constant of the effect's closure, the \<^verbatim>\<open>Peer\<close> object in every state (the
  cleanup does not go through \<^verbatim>\<open>peerRef.current\<close>), and the cleanup has no other
  statement: it throws only if \<^verbatim>\<open>destroy\<close> does. \<open>host_step\<close> at \<open>Unmount\<close> is the
  state it leaves.
\<close>

definition cleanup :: "host \<Rightarrow> host outcome" where
  "cleanup h = (case peer_destroy h of Returned h' \<Rightarrow> Returned h' | Thrown \<Rightarrow> Thrown)"

text \<open>
  What the modal renders: the spinner, the QR code with its value
  (\<^verbatim>\<open>status === 'waiting' && signingUrl\<close>), the two confirmation panels and the error
  panel (\<^verbatim>\<open>error && ...\<close>).
\<close>

record host_view =
  spinner :: bool
  qr_code :: "js_string option"
  connected_panel :: bool
  received_panel :: bool
  error_panel :: "js_string option"

definition render_host :: "js_string \<Rightarrow> js_string \<Rightarrow> host \<Rightarrow> host_view" where
  "render_host origin pathname h =
     \<lparr>spinner = (status h = HConnecting),
      qr_code = (if status h = HWaiting then signingUrl origin pathname (peerId h) else None),
      connected_panel = (status h = HConnected),
      received_panel = (status h = HReceived),
      error_panel = (if truthy_str (error h) then error h else None)\<rparr>"

text \<open>
  The states of the host session as the specification names them, read off the two state
  variables: \<open>Error\<close> when \<^verbatim>\<open>error\<close> is set (the error panel is rendered), the value of
  \<^verbatim>\<open>status\<close> otherwise.
\<close>

datatype session_state = Connecting | Waiting | Connected | Received | Error

definition host_state :: "host \<Rightarrow> session_state" where
  "host_state h =
     (if truthy_str (error h) then Error
      else case status h of
             HConnecting \<Rightarrow> Connecting
           | HWaiting \<Rightarrow> Waiting
           | HConnected \<Rightarrow> Connected
           | HReceived \<Rightarrow> Received)"

text \<open>
  The payload shape of the specification, \<^verbatim>\<open>{ kind: "signature", image: string }\<close>,
  under the property names of the source (\<^verbatim>\<open>type\<close>, \<^verbatim>\<open>dataUrl\<close>): an object whose
  \<^verbatim>\<open>type\<close> is the string \<^verbatim>\<open>signature\<close> and whose \<^verbatim>\<open>dataUrl\<close> is a string. It is
  compared with the guard \<open>accepts\<close> of the source.
\<close>

definition well_formed_signature :: "js_value \<Rightarrow> bool" where
  "well_formed_signature data =
     (case data of
        JObj ps \<Rightarrow>
          map_of ps (ascii ''type'') = Some (JStr (ascii ''signature''))
          \<and> (case map_of ps (ascii ''dataUrl'') of Some (JStr img) \<Rightarrow> True | _ \<Rightarrow> False)
      | _ \<Rightarrow> False)"

fun is_open :: "host_event \<Rightarrow> bool" where
  "is_open (PeerOpen i) = True"
| "is_open e = False"

fun is_connection :: "host_event \<Rightarrow> bool" where
  "is_connection (PeerConnection c) = True"
| "is_connection e = False"


section \<open>The client session (MobileSignPage)\<close>

text \<open>
  \<^verbatim>\<open>peer.connect(targetPeerId, { reliable: true })\<close> gives the connection kept in
  \<^verbatim>\<open>connRef\<close>. The state records the calls of \<^verbatim>\<open>conn.send\<close>, the pending timeouts and
  the calls of \<^verbatim>\<open>peer.destroy()\<close> as on the host side.
\<close>

record connection =
  target :: js_string
  reliable :: bool

datatype client_status = CConnecting | CReady | CSending | CSent | CError

record client =
  targetPeerId :: js_string
  status_c :: client_status
  signatureDataUrl :: "js_string option"
  connRef :: "connection option"
  send_calls :: "(connection \<times> js_value) list"
  timeouts_c :: "nat list"
  destroy_calls_c :: nat

definition client_init :: "js_string \<Rightarrow> client" where
  "client_init i = \<lparr>targetPeerId = i, status_c = CConnecting, signatureDataUrl = None,
     connRef = None, send_calls = [], timeouts_c = [], destroy_calls_c = 0\<rparr>"

text \<open>\<^verbatim>\<open>{ type: 'signature', dataUrl: signatureDataUrl }\<close>\<close>

definition signature_payload :: "js_string \<Rightarrow> js_value" where
  "signature_payload img = JObj [(ascii ''type'', JStr (ascii ''signature'')), (ascii ''dataUrl'', JStr img)]"

text \<open>
  \<^verbatim>\<open>if (!signatureDataUrl || !connRef.current) return;
  setStatus('sending'); connRef.current.send({...}); setTimeout(() => setStatus('sent'), 300);\<close>
\<close>

definition sendSignature :: "client \<Rightarrow> client" where
  "sendSignature c =
     (case (signatureDataUrl c, connRef c) of
        (Some img, Some k) \<Rightarrow>
          if img = [] then c
          else c\<lparr>status_c := CSending,
                 send_calls := send_calls c @ [(k, signature_payload img)],
                 timeouts_c := timeouts_c c @ [300]\<rparr>
      | _ \<Rightarrow> c)"

text \<open>
  The signature area, with the \<^verbatim>\<open>SignaturePad\<close> and the submit button, is rendered under
  \<^verbatim>\<open>status === 'ready' || status === 'sending'\<close>; the pad has no disabled mode. The
  button carries \<^verbatim>\<open>disabled={!signatureDataUrl || status === 'sending'}\<close>.
\<close>

definition pad_rendered :: "client \<Rightarrow> bool" where
  "pad_rendered c \<longleftrightarrow> status_c c = CReady \<or> status_c c = CSending"

definition button_disabled :: "client \<Rightarrow> bool" where
  "button_disabled c \<longleftrightarrow> \<not> truthy_str (signatureDataUrl c) \<or> status_c c = CSending"

text \<open>
  The events of the client: its own peer opening (the handler connects to the target and
  registers the handlers of the connection), the events of that connection, the pad
  reporting a drawing (a data URL) or its clearing (\<^verbatim>\<open>null\<close>), a click on the submit
  button, a timeout coming due, and the cleanup. The pad and the button can only act
  while they are rendered, and a connection only once it exists.
\<close>

datatype client_event =
    MPeerOpen
  | MConnOpen
  | MConnError
  | MConnClose
  | MPeerError
  | SignatureChange "js_string option"
  | ClickSend
  | MTimeout
  | MUnmount

fun client_step :: "client \<Rightarrow> client_event \<Rightarrow> client" where
  "client_step c MPeerOpen = c\<lparr>connRef := Some \<lparr>target = targetPeerId c, reliable = True\<rparr>\<rparr>"
| "client_step c MConnOpen = (if connRef c = None then c else c\<lparr>status_c := CReady\<rparr>)"
| "client_step c MConnError = (if connRef c = None then c else c\<lparr>status_c := CError\<rparr>)"
| "client_step c MConnClose = c"
| "client_step c MPeerError = c\<lparr>status_c := CError\<rparr>"
| "client_step c (SignatureChange v) = (if pad_rendered c then c\<lparr>signatureDataUrl := v\<rparr> else c)"
| "client_step c ClickSend =
     (if pad_rendered c \<and> \<not> button_disabled c then sendSignature c else c)"
| "client_step c MTimeout =
     (case timeouts_c c of
        [] \<Rightarrow> c
      | t # ts \<Rightarrow> c\<lparr>timeouts_c := ts, status_c := CSent\<rparr>)"
| "client_step c MUnmount = c\<lparr>destroy_calls_c := destroy_calls_c c + 1\<rparr>"

definition client_run :: "client \<Rightarrow> client_event list \<Rightarrow> client" where
  "client_run = foldl client_step"


section \<open>Invariants of the host session\<close>

text \<open>As long as no \<^verbatim>\<open>open\<close> event has happened, there is no id and the status is not \<^verbatim>\<open>'waiting'\<close>.\<close>

definition unregistered :: "host \<Rightarrow> bool" where
  "unregistered h \<longleftrightarrow> peerId h = None \<and> status h \<noteq> HWaiting"

text \<open>
  As long as no \<^verbatim>\<open>connection\<close> event has happened, no data handler is registered,
  nothing was received and nothing is scheduled.
\<close>

definition unconnected :: "host \<Rightarrow> bool" where
  "unconnected h \<longleftrightarrow> wired h = [] \<and> onSignature_calls h = [] \<and> timeouts h = []
     \<and> (status h = HConnecting \<or> status h = HWaiting)"

text \<open>
  Before the unmount, every call of \<^verbatim>\<open>onSignature\<close> has its delayed
  \<^verbatim>\<open>peer.destroy()\<close>, either still pending or already run.
\<close>

definition settled :: "host \<Rightarrow> bool" where
  "settled h \<longleftrightarrow> destroy_calls h + length (timeouts h) = length (onSignature_calls h)"


section \<open>Properties of the router\<close>

lemma strip_literal_append: "strip_literal p (p @ s) = Some s"
  by (induction p) simp_all

lemma strip_literal_Some: "strip_literal p s = Some r \<Longrightarrow> s = p @ r"
  by (induction p s rule: strip_literal.induct) (simp_all split: if_splits)

lemma greedy_run_all: "dropWhile P xs = [] \<longleftrightarrow> (\<forall>x \<in> set xs. P x)"
  by (induction xs) simp_all

lemma match_sign_iff:
  "match_sign hash = Some i \<longleftrightarrow> hash = ascii ''#/sign/'' @ i \<and> i \<noteq> [] \<and> (\<forall>c \<in> set i. dot c)"
proof (cases "strip_literal (ascii ''#/sign/'') hash")
  case None
  then have "hash \<noteq> ascii ''#/sign/'' @ i"
    using strip_literal_append [of "ascii ''#/sign/''" i] by auto
  with None show ?thesis by (simp add: match_sign_def)
next
  case (Some rest)
  then have hash: "hash = ascii ''#/sign/'' @ rest" by (rule strip_literal_Some)
  show ?thesis
  proof (cases "\<forall>c \<in> set rest. dot c")
    case True
    then have run: "takeWhile dot rest = rest" "dropWhile dot rest = []"
      by (simp_all add: greedy_run_all)
    have "match_sign hash = (if rest \<noteq> [] then Some rest else None)"
      by (simp add: match_sign_def Let_def Some run)
    with hash True show ?thesis by auto
  next
    case False
    then have "dropWhile dot rest \<noteq> []" by (simp add: greedy_run_all)
    then have "match_sign hash = None"
      using Some by (simp add: match_sign_def Let_def)
    with hash False show ?thesis by auto
  qed
qed

lemma App_sign_iff:
  "App hash = MobileSignPage i \<longleftrightarrow> match_sign hash = Some i"
  by (cases "match_sign hash") (simp_all add: App_def parseHash_def)

lemma App_main_iff:
  "App hash = ParentalAbsenceForm \<longleftrightarrow> match_sign hash = None"
  by (cases "match_sign hash") (simp_all add: App_def parseHash_def)


section \<open>Properties of the location hash\<close>

lemma hex_digit_safe: "fragment_safe (hex_digit n)"
proof -
  have "n mod 16 < length (ascii ''0123456789ABCDEF'')" by (simp add: ascii_def)
  then have "hex_digit n \<in> set (ascii ''0123456789ABCDEF'')"
    unfolding hex_digit_def by (rule nth_mem)
  then show ?thesis
    by (auto simp: ascii_def fragment_safe_def fragment_percent_encode_def)
qed

lemma percent_sign_safe: "fragment_safe 0x25"
  by (simp add: fragment_safe_def fragment_percent_encode_def)

lemma percent_byte_safe: "c \<in> set (percent_byte b) \<Longrightarrow> fragment_safe c"
  using hex_digit_safe percent_sign_safe by (auto simp: percent_byte_def)

lemma percent_utf8_safe: "c \<in> set (percent_utf8 n) \<Longrightarrow> fragment_safe c"
  using percent_byte_safe by (auto simp: percent_utf8_def)


lemma encode_fragment_safe: "c \<in> set (encode_fragment s) \<Longrightarrow> fragment_safe c"
proof (induction s arbitrary: c rule: encode_fragment.induct)
  case 1
  then show ?case by simp
next
  case (2 a)
  then show ?case
    by (cases "fragment_percent_encode a") (auto simp: fragment_safe_def dest: percent_utf8_safe)
next
  case (3 a d cs)
  show ?case
  proof (cases "fragment_percent_encode a")
    case False
    with "3.prems" have "c = a \<or> c \<in> set (encode_fragment (d # cs))" by simp
    with False "3.IH"(1) show ?thesis by (auto simp: fragment_safe_def)
  next
    case True
    show ?thesis
    proof (cases "high_surrogate a \<and> low_surrogate d")
      case pair: True
      with True "3.prems" have "c \<in> set (percent_utf8 (scalar_of_pair a d)) \<or> c \<in> set (encode_fragment cs)"
        by simp
      with True pair "3.IH"(2) show ?thesis using percent_utf8_safe by blast
    next
      case single: False
      with True "3.prems" have "c \<in> set (percent_utf8 (scalar_of_unit a)) \<or> c \<in> set (encode_fragment (d # cs))"
        by auto
      with True single "3.IH"(3) show ?thesis using percent_utf8_safe by blast
    qed
  qed
qed


lemma fragment_safe_no_line_terminator: "fragment_safe c \<Longrightarrow> \<not> line_terminator c"
  by (auto simp: fragment_safe_def fragment_percent_encode_def line_terminator_def)

lemma number_sign_safe: "fragment_safe 0x23"
  by (simp add: fragment_safe_def fragment_percent_encode_def)

lemma location_hash_units: "c \<in> set (location_hash url) \<Longrightarrow> fragment_safe c"
proof -
  assume c: "c \<in> set (location_hash url)"
  let ?rest = "dropWhile (\<lambda>c. c \<noteq> 0x23)
      (filter (\<lambda>c. \<not> tab_or_newline c) (strip_c0_space url))"
  show ?thesis
  proof (cases ?rest)
    case Nil
    with c show ?thesis by (simp add: location_hash_def)
  next
    case (Cons h fragment)
    with c have "c = 0x23 \<or> c \<in> set (encode_fragment fragment)"
      by (cases "fragment = []") (simp_all add: location_hash_def)
    then show ?thesis using number_sign_safe encode_fragment_safe by blast
  qed
qed

lemma location_hash_no_line_terminator: "\<forall>c \<in> set (location_hash url). \<not> line_terminator c"
  using location_hash_units fragment_safe_no_line_terminator by blast

lemma encode_fragment_id: "\<forall>c \<in> set s. fragment_safe c \<Longrightarrow> encode_fragment s = s"
  by (induction s rule: encode_fragment.induct) (simp_all add: fragment_safe_def)

lemma fragment_safe_not_stripped:
  "fragment_safe c \<Longrightarrow> \<not> c0_control_or_space c \<and> \<not> tab_or_newline c"
  by (auto simp: fragment_safe_def fragment_percent_encode_def c0_control_or_space_def
      tab_or_newline_def)


lemma strip_keeps_safe_end:
  assumes "t \<noteq> []" and "\<forall>c \<in> set t. fragment_safe c"
  shows "strip_c0_space (u @ t) = dropWhile c0_control_or_space u @ t"
proof -
  from assms have hd: "\<not> c0_control_or_space (hd t)" and lst: "\<not> c0_control_or_space (last t)"
    by (simp_all add: fragment_safe_not_stripped)
  from assms(1) hd have "dropWhile c0_control_or_space t = t"
    by (cases t) simp_all
  then have lead: "dropWhile c0_control_or_space (u @ t) = dropWhile c0_control_or_space u @ t"
    by (simp add: dropWhile_append)
  let ?v = "dropWhile c0_control_or_space u"
  from assms(1) lst have "dropWhile c0_control_or_space (rev t) = rev t"
    by (cases "rev t") (auto simp: last_rev [symmetric] hd_rev simp del: last_rev)
  moreover have "last t \<in> set (rev t)" using assms(1) by simp
  then have "dropWhile c0_control_or_space (rev t @ rev ?v)
      = dropWhile c0_control_or_space (rev t) @ rev ?v"
    using lst by (rule dropWhile_append1)
  ultimately have "dropWhile c0_control_or_space (rev (?v @ t)) = rev (?v @ t)"
    by simp
  then show ?thesis by (simp add: strip_c0_space_def lead)
qed


lemma location_hash_of_fragment:
  assumes u: "0x23 \<notin> set u" and h: "h \<noteq> []" and safe: "\<forall>c \<in> set h. fragment_safe c"
  shows "location_hash (u @ 0x23 # h) = 0x23 # h"
proof -
  let ?t = "0x23 # h"
  let ?v = "dropWhile c0_control_or_space u"
  let ?w = "filter (\<lambda>c. \<not> tab_or_newline c) ?v"
  have tsafe: "\<forall>c \<in> set ?t. fragment_safe c"
    using safe number_sign_safe by simp
  then have strip: "strip_c0_space (u @ ?t) = ?v @ ?t"
    by (intro strip_keeps_safe_end) simp_all
  have "filter (\<lambda>c. \<not> tab_or_newline c) ?t = ?t"
    using tsafe by (simp add: filter_id_conv fragment_safe_not_stripped)
  then have input: "filter (\<lambda>c. \<not> tab_or_newline c) (strip_c0_space (u @ ?t)) = ?w @ ?t"
    by (simp add: strip)
  have "set ?w \<subseteq> set u" using set_dropWhileD by fastforce
  with u have "x \<noteq> 0x23" if "x \<in> set ?w" for x using that by blast
  then have "dropWhile (\<lambda>c. c \<noteq> 0x23) (?w @ ?t) = dropWhile (\<lambda>c. c \<noteq> 0x23) ?t"
    by (rule dropWhile_append2)
  then have "dropWhile (\<lambda>c. c \<noteq> 0x23) (?w @ ?t) = ?t" by simp
  with h safe show ?thesis
    by (simp add: location_hash_def input encode_fragment_id)
qed

text \<open>
  Two ids that are not URL-safe, as the browser treats them: the space is percent-encoded
  and the newline is removed, so the router of the second device sees another id.
\<close>

lemma location_hash_space:
  "location_hash (ascii ''https://example.org/#/sign/a b'') = ascii ''#/sign/a%20b''"
  by (simp add: location_hash_def strip_c0_space_def ascii_def c0_control_or_space_def
      tab_or_newline_def fragment_percent_encode_def percent_utf8_def utf8_def percent_byte_def
      hex_digit_def scalar_of_unit_def high_surrogate_def low_surrogate_def)

lemma location_hash_newline:
  "location_hash (ascii ''https://example.org/#/sign/a'' @ [0x0A] @ ascii ''b'') = ascii ''#/sign/ab''"
  by (simp add: location_hash_def strip_c0_space_def ascii_def c0_control_or_space_def
      tab_or_newline_def fragment_percent_encode_def)


section \<open>Routing by the location hash\<close>

text \<open>
  Claim C10. A location hash holds no line terminator (\<open>location_hash_no_line_terminator\<close>:
  the URL parser removes or percent-encodes them). For every such hash, the app renders
  the mobile sign page exactly when the hash is \<^verbatim>\<open>#/sign/\<close> followed by at least one
  character; \<^verbatim>\<open>targetPeerId\<close> is then the whole remainder of the hash after
  \<^verbatim>\<open>#/sign/\<close>, further \<^verbatim>\<open>/\<close> included. Every other hash, the bare \<^verbatim>\<open>#/sign/\<close>
  among them, renders the main form page.
\<close>

theorem route_dispatch:
  assumes "\<forall>c \<in> set hash. \<not> line_terminator c"
  shows "(App hash = MobileSignPage i \<longleftrightarrow> hash = ascii ''#/sign/'' @ i \<and> i \<noteq> [])
   \<and> (App hash = ParentalAbsenceForm \<longleftrightarrow> \<not> (\<exists>j. hash = ascii ''#/sign/'' @ j \<and> j \<noteq> []))
   \<and> App (ascii ''#/sign/'') = ParentalAbsenceForm"
proof (intro conjI)
  have rest: "\<forall>c \<in> set j. dot c" if "hash = ascii ''#/sign/'' @ j" for j
    using assms that by (simp add: dot_def)
  then show "App hash = MobileSignPage i \<longleftrightarrow> hash = ascii ''#/sign/'' @ i \<and> i \<noteq> []"
    by (auto simp: App_sign_iff match_sign_iff)
  have "match_sign hash = None \<longleftrightarrow> (\<forall>j. match_sign hash \<noteq> Some j)" by auto
  with rest show "App hash = ParentalAbsenceForm \<longleftrightarrow>
      \<not> (\<exists>j. hash = ascii ''#/sign/'' @ j \<and> j \<noteq> [])"
    by (auto simp: App_main_iff match_sign_iff)
  have "\<forall>j. match_sign (ascii ''#/sign/'') \<noteq> Some j"
    by (simp add: match_sign_iff)
  then show "App (ascii ''#/sign/'') = ParentalAbsenceForm"
    by (simp add: App_main_iff)
qed

text \<open>
  The page opened at \<^verbatim>\<open>https://example.org/ovikreta/#/sign/room/7\<close> is the sign page
  with the id \<^verbatim>\<open>room/7\<close>.
\<close>

theorem route_dispatch_witness:
  "App (location_hash (ascii ''https://example.org/ovikreta/#/sign/room/7''))
     = MobileSignPage (ascii ''room/7'')"
proof -
  let ?url = "ascii ''https://example.org/ovikreta/#/sign/room/7''"
  have h: "location_hash ?url = ascii ''#/sign/'' @ ascii ''room/7''"
    by (simp add: location_hash_def strip_c0_space_def ascii_def c0_control_or_space_def
        tab_or_newline_def fragment_percent_encode_def)
  have "ascii ''room/7'' \<noteq> []" by (simp add: ascii_def)
  with h route_dispatch [OF location_hash_no_line_terminator, of ?url "ascii ''room/7''"]
  show ?thesis by simp
qed


section \<open>Round trip of the session id through the signing URL\<close>

text \<open>
  Claim C1. For every valid session id, that is a non-empty string of URL-safe code units
  (\<open>fragment_safe\<close>), the URL the host composes from the origin, the path (neither holds a
  \<^verbatim>\<open>#\<close>) and the id has the location hash \<^verbatim>\<open>#/sign/<id>\<close> on the second device, and
  the client router parses that hash back to the sign route with exactly this id.
\<close>

theorem signing_url_round_trip:
  assumes "0x23 \<notin> set origin" and "0x23 \<notin> set pathname"
    and "i \<noteq> []" and "\<forall>c \<in> set i. fragment_safe c"
  shows "scan_and_route origin pathname i = Some (PageSign i)"
proof -
  let ?h = "ascii ''/sign/'' @ i"
  have lit: "ascii ''#/sign/'' = 0x23 # ascii ''/sign/''" by (simp add: ascii_def)
  have "\<forall>c \<in> set (ascii ''/sign/''). fragment_safe c"
    by (simp add: ascii_def fragment_safe_def fragment_percent_encode_def)
  with assms(4) have "\<forall>c \<in> set ?h. fragment_safe c" by auto
  moreover have "?h \<noteq> []" using assms(3) by simp
  moreover have "0x23 \<notin> set (origin @ pathname)" using assms(1,2) by simp
  ultimately have "location_hash ((origin @ pathname) @ 0x23 # ?h) = 0x23 # ?h"
    by (intro location_hash_of_fragment)
  then have hash: "location_hash (origin @ pathname @ ascii ''#/sign/'' @ i) = ascii ''#/sign/'' @ i"
    by (simp add: lit)
  have "\<forall>c \<in> set i. dot c"
    using assms(4) fragment_safe_no_line_terminator by (auto simp: dot_def)
  with assms(3) have "match_sign (ascii ''#/sign/'' @ i) = Some i"
    by (simp add: match_sign_iff)
  with hash have "parseHash (location_hash (origin @ pathname @ ascii ''#/sign/'' @ i)) = PageSign i"
    by (simp add: parseHash_def)
  with assms(3) show ?thesis
    by (simp add: scan_and_route_def signingUrl_def)
qed

theorem signing_url_round_trip_witness:
  "scan_and_route (ascii ''https://example.org'') (ascii ''/ovikreta/'') (ascii ''ABC123'')
     = Some (PageSign (ascii ''ABC123''))"
proof -
  have "\<forall>c \<in> set (ascii ''ABC123''). fragment_safe c"
    by (simp add: ascii_def fragment_safe_def fragment_percent_encode_def)
  moreover have "0x23 \<notin> set (ascii ''https://example.org'')" "0x23 \<notin> set (ascii ''/ovikreta/'')"
    "ascii ''ABC123'' \<noteq> []"
    by (simp_all add: ascii_def)
  ultimately show ?thesis by (intro signing_url_round_trip)
qed


section \<open>Properties of the host session\<close>

lemma host_run_Nil: "host_run h [] = h"
  by (simp add: host_run_def)

lemma host_run_Cons: "host_run h (e # evs) = host_run (host_step h e) evs"
  by (simp add: host_run_def)

lemma host_run_append: "host_run h (xs @ ys) = host_run (host_run h xs) ys"
  by (simp add: host_run_def)

lemma error_message_truthy: "error_message \<noteq> []"
  by (simp add: error_message_def ascii_def)

lemma on_data_error: "error (on_data h d) = error h"
  by (simp add: on_data_def)

lemma host_step_error_kept: "truthy_str (error h) \<Longrightarrow> truthy_str (error (host_step h e))"
  by (cases e) (simp_all add: on_data_error error_message_truthy split: list.splits)

lemma host_run_error_kept: "truthy_str (error h) \<Longrightarrow> truthy_str (error (host_run h evs))"
  by (induction evs arbitrary: h) (simp_all add: host_run_Nil host_run_Cons host_step_error_kept)

lemma unregistered_step: "unregistered h \<Longrightarrow> \<not> is_open e \<Longrightarrow> unregistered (host_step h e)"
  by (cases e) (auto simp: unregistered_def on_data_def split: list.splits)

lemma unregistered_run:
  "unregistered h \<Longrightarrow> \<forall>e \<in> set evs. \<not> is_open e \<Longrightarrow> unregistered (host_run h evs)"
  by (induction evs arbitrary: h) (simp_all add: host_run_Nil host_run_Cons unregistered_step)

lemma unregistered_no_qr: "unregistered h \<Longrightarrow> qr_code (render_host origin pathname h) = None"
  by (simp add: unregistered_def render_host_def)

lemma host_state_Error: "host_state h = Error \<longleftrightarrow> truthy_str (error h)"
  by (simp add: host_state_def split: host_status.splits)


section \<open>Registration failure\<close>

text \<open>
  Claim C6. If the endpoint never opens (no \<^verbatim>\<open>open\<close> event: registration fails) and
  the transport reports an error, the host session is in its error state at once, and it
  stays there whatever happens later (nothing resets \<^verbatim>\<open>error\<close>; the only way on is the
  reload of the page). The QR code with the signing URL is rendered at no moment: not
  before the error, not at it, not after it.
\<close>

theorem registration_failure:
  assumes "\<forall>e \<in> set before. \<not> is_open e"
  shows "qr_code (render_host origin pathname (host_run host_init before)) = None
    \<and> host_state (host_run host_init (before @ PeerError # later)) = Error
    \<and> ((\<forall>e \<in> set later. \<not> is_open e) \<longrightarrow>
         qr_code (render_host origin pathname (host_run host_init (before @ PeerError # later))) = None)"
proof -
  have init: "unregistered host_init" by (simp add: unregistered_def host_init_def)
  then have b: "unregistered (host_run host_init before)"
    using assms by (rule unregistered_run)
  have "truthy_str (error (host_step (host_run host_init before) PeerError))"
    by (simp add: error_message_truthy)
  then have e: "host_state (host_run host_init (before @ PeerError # later)) = Error"
    by (simp add: host_state_Error host_run_append host_run_Cons host_run_error_kept)
  have "unregistered (host_run host_init (before @ PeerError # later))"
    if "\<forall>e \<in> set later. \<not> is_open e"
  proof -
    from assms that have "\<forall>e \<in> set (before @ PeerError # later). \<not> is_open e" by auto
    with init show ?thesis by (rule unregistered_run)
  qed
  with b e show ?thesis by (simp add: unregistered_no_qr)
qed

theorem registration_failure_witness:
  "host_state (host_run host_init [PeerError, Timeout, Unmount]) = Error
   \<and> qr_code (render_host (ascii ''https://example.org'') (ascii ''/'')
        (host_run host_init [PeerError, Timeout, Unmount])) = None"
proof -
  have "\<forall>e \<in> set []. \<not> is_open e" by simp
  moreover have "\<forall>e \<in> set [Timeout, Unmount]. \<not> is_open e" by simp
  ultimately show ?thesis
    using registration_failure
      [of "[]" "ascii ''https://example.org''" "ascii ''/''" "[Timeout, Unmount]"]
    by simp
qed


section \<open>Waiting without a connection\<close>

lemma unconnected_step:
  "unconnected h \<Longrightarrow> \<not> is_connection e \<Longrightarrow> unconnected (host_step h e)"
  by (cases e) (auto simp: unconnected_def)

lemma unconnected_run:
  "unconnected h \<Longrightarrow> \<forall>e \<in> set evs. \<not> is_connection e \<Longrightarrow> unconnected (host_run h evs)"
  by (induction evs arbitrary: h) (simp_all add: host_run_Nil host_run_Cons unconnected_step)

lemma unconnected_state:
  "unconnected h \<Longrightarrow> host_state h = Connecting \<or> host_state h = Waiting \<or> host_state h = Error"
  by (auto simp: unconnected_def host_state_def)

lemma unconnected_waiting_step:
  assumes "unconnected h" and "host_state h = Waiting" and "\<not> is_connection e" and "e \<noteq> PeerError"
  shows "host_state (host_step h e) = Waiting"
  using assms by (cases e) (auto simp: unconnected_def host_state_def split: if_splits host_status.splits)

lemma unconnected_waiting_run:
  assumes "unconnected h" and "host_state h = Waiting"
    and "\<forall>e \<in> set evs. \<not> is_connection e \<and> e \<noteq> PeerError"
  shows "host_state (host_run h evs) = Waiting"
  using assms
proof (induction evs arbitrary: h)
  case Nil
  then show ?case by (simp add: host_run_Nil)
next
  case (Cons e evs)
  then have "unconnected (host_step h e)" "host_state (host_step h e) = Waiting"
    by (simp_all add: unconnected_step unconnected_waiting_step)
  with Cons show ?case by (simp add: host_run_Cons)
qed

text \<open>
  Claim C7. In a host session that receives no inbound connection event, the state is
  never Connected or Received and \<^verbatim>\<open>onSignature\<close> is never called, whatever else
  happens (timeouts, data or close events, unmount). Once such a session is Waiting,
  an event that takes it out of Waiting is an inbound connection or a transport error,
  and without these it is Waiting after every further sequence of events.
\<close>

theorem waiting_without_connection:
  assumes "\<forall>e \<in> set evs. \<not> is_connection e"
  shows "host_state (host_run host_init evs) \<noteq> Connected
    \<and> host_state (host_run host_init evs) \<noteq> Received
    \<and> onSignature_calls (host_run host_init evs) = []
    \<and> (host_state (host_run host_init evs) = Waiting \<longrightarrow>
         (\<forall>e. host_state (host_step (host_run host_init evs) e) \<noteq> Waiting
                \<longrightarrow> is_connection e \<or> e = PeerError)
         \<and> (\<forall>more. (\<forall>e \<in> set more. \<not> is_connection e \<and> e \<noteq> PeerError)
                \<longrightarrow> host_state (host_run host_init (evs @ more)) = Waiting))"
proof -
  have "unconnected host_init" by (simp add: unconnected_def host_init_def)
  then have u: "unconnected (host_run host_init evs)"
    using assms by (rule unconnected_run)
  from unconnected_state [OF u]
  have "host_state (host_run host_init evs) \<noteq> Connected"
    "host_state (host_run host_init evs) \<noteq> Received" by auto
  moreover from u have "onSignature_calls (host_run host_init evs) = []"
    by (simp add: unconnected_def)
  moreover have "is_connection e \<or> e = PeerError"
    if "host_state (host_run host_init evs) = Waiting"
      and "host_state (host_step (host_run host_init evs) e) \<noteq> Waiting" for e
    using unconnected_waiting_step [OF u that(1)] that(2) by blast
  moreover have "host_state (host_run host_init (evs @ more)) = Waiting"
    if "host_state (host_run host_init evs) = Waiting"
      and "\<forall>e \<in> set more. \<not> is_connection e \<and> e \<noteq> PeerError" for more
    using unconnected_waiting_run [OF u that] by (simp add: host_run_append)
  ultimately show ?thesis by blast
qed

theorem waiting_without_connection_witness:
  "host_state (host_run host_init [PeerOpen (ascii ''ABC123'')]) = Waiting
   \<and> host_state (host_run host_init ([PeerOpen (ascii ''ABC123'')] @ [Timeout, ConnData 0 JNull, Timeout])) = Waiting"
proof -
  let ?evs = "[PeerOpen (ascii ''ABC123'')]"
  have no: "\<forall>e \<in> set ?evs. \<not> is_connection e" by simp
  have w: "host_state (host_run host_init ?evs) = Waiting"
    by (simp add: host_run_def host_state_def host_init_def)
  have "\<forall>e \<in> set [Timeout, ConnData 0 JNull, Timeout]. \<not> is_connection e \<and> e \<noteq> PeerError"
    by simp
  with waiting_without_connection [OF no] w
  have "host_state (host_run host_init (?evs @ [Timeout, ConnData 0 JNull, Timeout])) = Waiting"
    by blast
  with w show ?thesis by simp
qed


section \<open>Calls of the signature callback\<close>

lemma on_data_wired: "wired (on_data h d) = wired h"
  by (simp add: on_data_def)

lemma on_data_accepted_calls:
  "accepts d \<Longrightarrow> onSignature_calls (on_data h d) = onSignature_calls h @ [get_prop d (ascii ''dataUrl'')]"
  by (simp add: on_data_def)

lemma on_data_rejected: "\<not> accepts d \<Longrightarrow> on_data h d = h"
  by (simp add: on_data_def)

lemma host_step_calls:
  "onSignature_calls (host_step h e) = onSignature_calls h @
     (case e of
        ConnData c d \<Rightarrow> if c \<in> set (wired h) \<and> accepts d then [get_prop d (ascii ''dataUrl'')] else []
      | _ \<Rightarrow> [])"
  by (cases e) (simp_all add: on_data_def split: list.splits)

text \<open>
  Claim C2, as amended. The host calls \<^verbatim>\<open>onSignature\<close> once for every data event that
  passes the guard of the handler, on whichever inbound connection it arrives and
  whatever the status is (\<^verbatim>\<open>'received'\<close> included), and for no other event: there is no
  guard that would drop the payloads after the first, and \<open>n\<close> such events give \<open>n\<close>
  calls.
\<close>

theorem onSignature_per_payload:
  "onSignature_calls (host_step h e) = onSignature_calls h @
     (case e of
        ConnData c d \<Rightarrow> if c \<in> set (wired h) \<and> accepts d then [get_prop d (ascii ''dataUrl'')] else []
      | _ \<Rightarrow> [])
   \<and> (c \<in> set (wired h) \<and> accepts data \<longrightarrow>
        onSignature_calls (host_run h (replicate n (ConnData c data)))
          = onSignature_calls h @ replicate n (get_prop data (ascii ''dataUrl'')))"
proof (intro conjI impI)
  show "onSignature_calls (host_step h e) = onSignature_calls h @
     (case e of
        ConnData c d \<Rightarrow> if c \<in> set (wired h) \<and> accepts d then [get_prop d (ascii ''dataUrl'')] else []
      | _ \<Rightarrow> [])"
    by (rule host_step_calls)
next
  assume a: "c \<in> set (wired h) \<and> accepts data"
  let ?v = "get_prop data (ascii ''dataUrl'')"
  have "onSignature_calls (host_run g (replicate n (ConnData c data)))
          = onSignature_calls g @ replicate n ?v" if "c \<in> set (wired g)" for g
    using that
  proof (induction n arbitrary: g)
    case 0
    show ?case by (simp add: host_run_Nil)
  next
    case (Suc n)
    let ?g = "host_step g (ConnData c data)"
    from Suc.prems have "c \<in> set (wired ?g)" by (simp add: on_data_wired)
    then have "onSignature_calls (host_run ?g (replicate n (ConnData c data)))
          = onSignature_calls ?g @ replicate n ?v"
      by (rule Suc.IH)
    moreover from a Suc.prems have "onSignature_calls ?g = onSignature_calls g @ [?v]"
      by (simp add: on_data_accepted_calls)
    ultimately show ?case by (simp add: host_run_Cons replicate_app_Cons_same)
  qed
  with a show "onSignature_calls (host_run h (replicate n (ConnData c data)))
          = onSignature_calls h @ replicate n ?v"
    by simp
qed

theorem onSignature_per_payload_witness:
  "onSignature_calls
     (host_run (host_run host_init [PeerOpen (ascii ''ABC123''), PeerConnection 0])
        (replicate 3 (ConnData 0 (signature_payload (ascii ''data:image/png;base64,AAA'')))))
   = replicate 3 (JStr (ascii ''data:image/png;base64,AAA''))"
  using onSignature_per_payload
    [of "host_run host_init [PeerOpen (ascii ''ABC123''), PeerConnection 0]" "Unmount" 0
      "signature_payload (ascii ''data:image/png;base64,AAA'')" 3]
  by (simp add: host_run_def host_init_def accepts_def signature_payload_def ascii_def)

text \<open>
  As stated, the claim fails: two signature payloads on one connection give two calls of
  \<^verbatim>\<open>onSignature\<close>.
\<close>

theorem onSignature_twice_counterexample:
  "onSignature_calls
     (host_run host_init
        [PeerOpen (ascii ''ABC123''), PeerConnection 0,
         ConnData 0 (signature_payload (ascii ''data:image/png;base64,AAA'')),
         ConnData 0 (signature_payload (ascii ''data:image/png;base64,BBB''))])
   = [JStr (ascii ''data:image/png;base64,AAA''), JStr (ascii ''data:image/png;base64,BBB'')]"
  by (simp add: host_run_def host_init_def on_data_def accepts_def signature_payload_def ascii_def)


section \<open>Payloads the host ignores\<close>

lemma accepts_shape:
  "accepts d \<longleftrightarrow>
     (\<exists>ps v. d = JObj ps \<and> map_of ps (ascii ''type'') = Some (JStr (ascii ''signature''))
        \<and> map_of ps (ascii ''dataUrl'') = Some v \<and> truthy v)"
  by (cases d) (auto simp: accepts_def split: option.splits)

text \<open>
  Claim C4, as amended. The host accepts a message exactly when it is an object whose
  \<^verbatim>\<open>type\<close> is the string \<^verbatim>\<open>signature\<close> and whose \<^verbatim>\<open>dataUrl\<close> is truthy (a string
  or not). Every other message, \<^verbatim>\<open>{kind: "ping"}\<close> for one, is ignored: the whole
  state of the host stays as it is and \<^verbatim>\<open>onSignature\<close> is not called. A data event
  changes the state only if its message is accepted and its connection is one the host
  has wired.
\<close>

theorem malformed_payload_ignored:
  "(accepts data \<longleftrightarrow>
      (\<exists>ps v. data = JObj ps \<and> map_of ps (ascii ''type'') = Some (JStr (ascii ''signature''))
         \<and> map_of ps (ascii ''dataUrl'') = Some v \<and> truthy v))
   \<and> (\<not> accepts data \<longrightarrow> host_step h (ConnData c data) = h)
   \<and> (host_step h (ConnData c data) \<noteq> h \<longrightarrow> accepts data \<and> c \<in> set (wired h))
   \<and> (accepts data \<and> c \<in> set (wired h) \<longrightarrow> host_step h (ConnData c data) \<noteq> h)"
proof -
  have "host_step h (ConnData c data) \<noteq> h" if "accepts data" "c \<in> set (wired h)"
  proof
    assume "host_step h (ConnData c data) = h"
    then have "timeouts (host_step h (ConnData c data)) = timeouts h" by simp
    with that show False by (simp add: on_data_def)
  qed
  moreover have "host_step h (ConnData c data) = h" if "\<not> accepts data"
    using that by (simp add: on_data_rejected)
  moreover have "accepts data \<and> c \<in> set (wired h)" if "host_step h (ConnData c data) \<noteq> h"
    using that on_data_rejected [of data h] by (auto split: if_splits)
  ultimately show ?thesis using accepts_shape [of data] by blast
qed

theorem malformed_payload_ignored_witness:
  "\<not> accepts (JObj [(ascii ''kind'', JStr (ascii ''ping''))])
   \<and> host_state (host_run host_init [PeerOpen (ascii ''ABC123''), PeerConnection 0]) = Connected
   \<and> host_step (host_run host_init [PeerOpen (ascii ''ABC123''), PeerConnection 0])
        (ConnData 0 (JObj [(ascii ''kind'', JStr (ascii ''ping''))]))
      = host_run host_init [PeerOpen (ascii ''ABC123''), PeerConnection 0]"
  using malformed_payload_ignored
    [of "JObj [(ascii ''kind'', JStr (ascii ''ping''))]"
      "host_run host_init [PeerOpen (ascii ''ABC123''), PeerConnection 0]" 0]
  by (simp add: accepts_def ascii_def host_run_def host_init_def host_state_def)

text \<open>
  As stated, the claim fails for \<^verbatim>\<open>{type: "signature", dataUrl: 42}\<close>, which is not a
  well-formed signature payload (its image is no string): the host goes from Connected to
  Received and calls \<^verbatim>\<open>onSignature(42)\<close>.
\<close>

theorem malformed_payload_counterexample:
  "\<not> well_formed_signature (JObj [(ascii ''type'', JStr (ascii ''signature'')), (ascii ''dataUrl'', JNum 42)])
   \<and> host_state (host_run host_init [PeerOpen (ascii ''ABC123''), PeerConnection 0]) = Connected
   \<and> host_state (host_run host_init [PeerOpen (ascii ''ABC123''), PeerConnection 0,
        ConnData 0 (JObj [(ascii ''type'', JStr (ascii ''signature'')), (ascii ''dataUrl'', JNum 42)])])
      = Received
   \<and> onSignature_calls (host_run host_init [PeerOpen (ascii ''ABC123''), PeerConnection 0,
        ConnData 0 (JObj [(ascii ''type'', JStr (ascii ''signature'')), (ascii ''dataUrl'', JNum 42)])])
      = [JNum 42]"
  by (simp add: well_formed_signature_def host_run_def host_init_def host_state_def on_data_def
      accepts_def ascii_def)


section \<open>Destroying the endpoint\<close>

lemma settled_step: "settled h \<Longrightarrow> e \<noteq> Unmount \<Longrightarrow> settled (host_step h e)"
  by (cases e) (auto simp: settled_def on_data_def split: list.splits)

lemma settled_run: "settled h \<Longrightarrow> Unmount \<notin> set evs \<Longrightarrow> settled (host_run h evs)"
proof (induction evs arbitrary: h)
  case Nil
  then show ?case by (simp add: host_run_Nil)
next
  case (Cons e evs)
  from Cons.prems have "e \<noteq> Unmount" "Unmount \<notin> set evs" by auto
  with Cons.prems(1) have "settled (host_run (host_step h e) evs)"
    by (intro Cons.IH settled_step)
  then show ?case by (simp add: host_run_Cons)
qed

lemma destroy_calls_step: "destroy_calls h \<le> destroy_calls (host_step h e)"
  by (cases e) (simp_all add: on_data_def split: list.splits)

lemma destroy_calls_run: "destroy_calls h \<le> destroy_calls (host_run h evs)"
proof (induction evs arbitrary: h)
  case Nil
  show ?case by (simp add: host_run_Nil)
next
  case (Cons e evs)
  have "destroy_calls h \<le> destroy_calls (host_step h e)" by (rule destroy_calls_step)
  also have "\<dots> \<le> destroy_calls (host_run (host_step h e) evs)" by (rule Cons.IH)
  finally show ?case by (simp add: host_run_Cons)
qed

lemma timeouts_fire:
  "destroy_calls (host_run h (replicate k Timeout)) = destroy_calls h + min k (length (timeouts h))"
proof (induction k arbitrary: h)
  case 0
  show ?case by (simp add: host_run_Nil)
next
  case (Suc k)
  show ?case
  proof (cases "timeouts h")
    case Nil
    then have "host_step h Timeout = h" by simp
    with Nil Suc.IH [of h] show ?thesis by (simp add: host_run_Cons)
  next
    case (Cons t ts)
    then have "host_step h Timeout = h\<lparr>timeouts := ts, destroy_calls := destroy_calls h + 1\<rparr>"
      by simp
    with Cons Suc.IH [of "h\<lparr>timeouts := ts, destroy_calls := destroy_calls h + 1\<rparr>"]
    show ?thesis by (simp add: host_run_Cons)
  qed
qed

lemma cleanup_returns: "cleanup h = Returned (host_step h Unmount)"
  by (simp add: cleanup_def peer_destroy_def)

text \<open>
  Claim C5, as amended. Unmounting the host does not throw and calls \<^verbatim>\<open>peer.destroy()\<close>
  once, in every state the session can be in (Connecting, Waiting, Connected, and
  Received or with the error shown as well). So on every exit path that ends with the
  unmount of the modal (normal completion, user cancel, component teardown, closing the
  modal after an error) the endpoint has been destroyed at least once and is not left
  dangling. If no signature payload has been accepted before the unmount, this is the
  only call over the whole lifetime of the session. Each accepted payload adds a delayed
  call of its own, which the unmount does not cancel: once the pending timeouts have come
  due, the number of calls is one plus the number of accepted payloads (two after a
  normal completion).
\<close>

theorem unmount_destroys_endpoint:
  assumes "Unmount \<notin> set evs"
  shows "cleanup (host_run host_init evs) \<noteq> Thrown
    \<and> cleanup (host_run host_init evs) = Returned (host_step (host_run host_init evs) Unmount)
    \<and> destroy_calls (host_step (host_run host_init evs) Unmount)
           = destroy_calls (host_run host_init evs) + 1
    \<and> (\<forall>later. 1 \<le> destroy_calls (host_run host_init (evs @ Unmount # later)))
    \<and> (onSignature_calls (host_run host_init evs) = [] \<longrightarrow>
         (\<forall>k. destroy_calls (host_run host_init (evs @ Unmount # replicate k Timeout)) = 1))
    \<and> (\<forall>k. length (timeouts (host_run host_init evs)) \<le> k \<longrightarrow>
         destroy_calls (host_run host_init (evs @ Unmount # replicate k Timeout))
           = 1 + length (onSignature_calls (host_run host_init evs)))"
proof -
  let ?h = "host_run host_init evs"
  have "settled host_init" by (simp add: settled_def host_init_def)
  then have s: "destroy_calls ?h + length (timeouts ?h) = length (onSignature_calls ?h)"
    using settled_run [OF _ assms] by (simp add: settled_def)
  have fire: "destroy_calls (host_run host_init (evs @ Unmount # replicate k Timeout))
          = destroy_calls ?h + 1 + min k (length (timeouts ?h))" for k
    by (simp add: host_run_append host_run_Cons timeouts_fire)
  have "1 \<le> destroy_calls (host_run host_init (evs @ Unmount # later))" for later
  proof -
    have "1 \<le> destroy_calls (host_step ?h Unmount)" by simp
    also have "\<dots> \<le> destroy_calls (host_run (host_step ?h Unmount) later)"
      by (rule destroy_calls_run)
    finally show ?thesis by (simp add: host_run_append host_run_Cons)
  qed
  moreover have "destroy_calls (host_run host_init (evs @ Unmount # replicate k Timeout)) = 1"
    if "onSignature_calls ?h = []" for k
    using s that fire [of k] by simp
  moreover have "destroy_calls (host_run host_init (evs @ Unmount # replicate k Timeout))
           = 1 + length (onSignature_calls ?h)" if "length (timeouts ?h) \<le> k" for k
    using s that fire [of k] by simp
  ultimately show ?thesis by (simp add: cleanup_returns)
qed

theorem unmount_destroys_endpoint_witness:
  "onSignature_calls (host_run host_init [PeerOpen (ascii ''ABC123''), PeerConnection 0]) = []
   \<and> cleanup (host_run host_init [PeerOpen (ascii ''ABC123''), PeerConnection 0]) \<noteq> Thrown
   \<and> destroy_calls (host_run host_init
        ([PeerOpen (ascii ''ABC123''), PeerConnection 0] @ Unmount # replicate 2 Timeout)) = 1"
proof -
  let ?evs = "[PeerOpen (ascii ''ABC123''), PeerConnection 0]"
  have no: "Unmount \<notin> set ?evs" by simp
  have none: "onSignature_calls (host_run host_init ?evs) = []"
    by (simp add: host_run_def host_init_def)
  with unmount_destroys_endpoint [OF no]
  have "destroy_calls (host_run host_init (?evs @ Unmount # replicate 2 Timeout)) = 1"
    and "cleanup (host_run host_init ?evs) \<noteq> Thrown"
    by blast+
  with none show ?thesis by simp
qed

text \<open>
  As stated, the claim fails on the normal completion: the payload is received, the modal
  is unmounted (first call), and the timeout of the data handler comes due (second call).
\<close>

theorem destroy_twice_counterexample:
  "host_state (host_run host_init
      [PeerOpen (ascii ''ABC123''), PeerConnection 0,
       ConnData 0 (signature_payload (ascii ''data:image/png;base64,AAA''))]) = Received
   \<and> destroy_calls (host_run host_init
      [PeerOpen (ascii ''ABC123''), PeerConnection 0,
       ConnData 0 (signature_payload (ascii ''data:image/png;base64,AAA'')), Unmount, Timeout]) = 2"
  by (simp add: host_run_def host_init_def host_state_def on_data_def accepts_def
      signature_payload_def ascii_def)


section \<open>Properties of the client session\<close>

lemma client_run_Nil: "client_run c [] = c"
  by (simp add: client_run_def)

lemma client_run_Cons: "client_run c (e # evs) = client_run (client_step c e) evs"
  by (simp add: client_run_def)

lemma sendSignature_none:
  "\<not> truthy_str (signatureDataUrl c) \<Longrightarrow> sendSignature c = c"
  by (cases "signatureDataUrl c") (simp_all add: sendSignature_def split: option.splits)

lemma sendSignature_some:
  "signatureDataUrl c = Some img \<Longrightarrow> img \<noteq> [] \<Longrightarrow> connRef c = Some k \<Longrightarrow>
   sendSignature c = c\<lparr>status_c := CSending,
       send_calls := send_calls c @ [(k, signature_payload img)],
       timeouts_c := timeouts_c c @ [300]\<rparr>"
  by (simp add: sendSignature_def)

lemma step_not_ready:
  assumes "status_c c \<noteq> CReady" and "e \<noteq> MConnOpen"
  shows "status_c (client_step c e) \<noteq> CReady \<and> send_calls (client_step c e) = send_calls c"
  using assms by (cases e) (auto simp: pad_rendered_def button_disabled_def split: list.splits)

lemma run_not_ready:
  assumes "status_c c \<noteq> CReady" and "MConnOpen \<notin> set evs"
  shows "send_calls (client_run c evs) = send_calls c"
  using assms
proof (induction evs arbitrary: c)
  case Nil
  show ?case by (simp add: client_run_Nil)
next
  case (Cons e evs)
  from Cons.prems have e: "e \<noteq> MConnOpen" and evs: "MConnOpen \<notin> set evs" by auto
  from step_not_ready [OF Cons.prems(1) e]
  have "status_c (client_step c e) \<noteq> CReady" "send_calls (client_step c e) = send_calls c"
    by simp_all
  with Cons.IH [OF _ evs] show ?case by (simp add: client_run_Cons)
qed


section \<open>Sending the signature\<close>

text \<open>
  Claim C9. \<^verbatim>\<open>sendSignature\<close> does nothing unless a non-empty drawing has been captured.
  When it runs (drawing captured, connection at hand), it calls \<^verbatim>\<open>send\<close> exactly once,
  with the signature payload, sets the status to Sending and schedules the change to Sent
  after the fixed delay of 300 ms, all in one step: it waits for nothing from the host,
  and the timeout alone takes the status to Sent. As long as the connection does not
  report \<^verbatim>\<open>open\<close> again, no later event sends a second payload (the button is
  disabled while Sending and gone afterwards).
\<close>

theorem send_once_without_acknowledgement:
  "(\<not> truthy_str (signatureDataUrl c) \<longrightarrow> sendSignature c = c)
   \<and> (signatureDataUrl c = Some img \<and> img \<noteq> [] \<and> connRef c = Some k \<longrightarrow>
        sendSignature c = c\<lparr>status_c := CSending,
            send_calls := send_calls c @ [(k, signature_payload img)],
            timeouts_c := timeouts_c c @ [300]\<rparr>
        \<and> (\<forall>evs. MConnOpen \<notin> set evs \<longrightarrow>
              send_calls (client_run (sendSignature c) evs) = send_calls c @ [(k, signature_payload img)])
        \<and> (timeouts_c c = [] \<longrightarrow> status_c (client_step (sendSignature c) MTimeout) = CSent))"
proof (intro conjI impI)
  assume "\<not> truthy_str (signatureDataUrl c)"
  then show "sendSignature c = c" by (rule sendSignature_none)
next
  assume a: "signatureDataUrl c = Some img \<and> img \<noteq> [] \<and> connRef c = Some k"
  then show s: "sendSignature c = c\<lparr>status_c := CSending,
            send_calls := send_calls c @ [(k, signature_payload img)],
            timeouts_c := timeouts_c c @ [300]\<rparr>"
    by (simp add: sendSignature_some)
  show "\<forall>evs. MConnOpen \<notin> set evs \<longrightarrow>
      send_calls (client_run (sendSignature c) evs) = send_calls c @ [(k, signature_payload img)]"
  proof (intro allI impI)
    fix evs :: "client_event list"
    assume "MConnOpen \<notin> set evs"
    moreover have "status_c (sendSignature c) \<noteq> CReady" by (simp add: s)
    ultimately have "send_calls (client_run (sendSignature c) evs) = send_calls (sendSignature c)"
      by (intro run_not_ready)
    then show "send_calls (client_run (sendSignature c) evs) = send_calls c @ [(k, signature_payload img)]"
      by (simp add: s)
  qed
  show "status_c (client_step (sendSignature c) MTimeout) = CSent" if "timeouts_c c = []"
    using that by (simp add: s)
qed

theorem send_once_without_acknowledgement_witness:
  "signatureDataUrl (client_run (client_init (ascii ''ABC123''))
       [MPeerOpen, MConnOpen, SignatureChange (Some (ascii ''data:image/png;base64,AAA''))])
     = Some (ascii ''data:image/png;base64,AAA'')
   \<and> send_calls (client_run (sendSignature (client_run (client_init (ascii ''ABC123''))
       [MPeerOpen, MConnOpen, SignatureChange (Some (ascii ''data:image/png;base64,AAA''))]))
       [ClickSend, MTimeout, ClickSend])
     = [(\<lparr>target = ascii ''ABC123'', reliable = True\<rparr>,
         signature_payload (ascii ''data:image/png;base64,AAA''))]"
proof -
  let ?img = "ascii ''data:image/png;base64,AAA''"
  let ?k = "\<lparr>target = ascii ''ABC123'', reliable = True\<rparr>"
  let ?c = "client_run (client_init (ascii ''ABC123''))
       [MPeerOpen, MConnOpen, SignatureChange (Some ?img)]"
  have c: "signatureDataUrl ?c = Some ?img" "connRef ?c = Some ?k" "send_calls ?c = []"
    by (simp_all add: client_run_def client_init_def pad_rendered_def)
  have "?img \<noteq> []" by (simp add: ascii_def)
  with c send_once_without_acknowledgement [of ?c ?img ?k]
  have "\<forall>evs. MConnOpen \<notin> set evs \<longrightarrow>
      send_calls (client_run (sendSignature ?c) evs) = send_calls ?c @ [(?k, signature_payload ?img)]"
    by blast
  then have "send_calls (client_run (sendSignature ?c) [ClickSend, MTimeout, ClickSend])
      = send_calls ?c @ [(?k, signature_payload ?img)]"
    by simp
  with c show ?thesis by simp
qed


section \<open>Ready state and drawing surface\<close>

text \<open>
  Claim C8, as amended. A client that is not Ready becomes Ready exactly on the \<^verbatim>\<open>open\<close>
  event of its outbound connection (so Connecting goes to Ready on that event and on no
  other). The drawing surface is rendered in the states Ready and Sending, where a
  drawing it reports is taken over into the state, and it is absent in Connecting, Sent
  and Error, where it can report nothing. While Sending, what is disabled is the submit
  button: a click on it does nothing. In Ready the button is enabled exactly when a
  drawing has been captured, and a click then runs \<^verbatim>\<open>sendSignature\<close>.
\<close>

theorem ready_and_drawing_surface:
  "(status_c c \<noteq> CReady \<longrightarrow>
      (status_c (client_step c e) = CReady \<longleftrightarrow> e = MConnOpen \<and> connRef c \<noteq> None))
   \<and> (pad_rendered c \<longleftrightarrow> status_c c = CReady \<or> status_c c = CSending)
   \<and> (status_c c = CReady \<or> status_c c = CSending \<longrightarrow>
        signatureDataUrl (client_step c (SignatureChange v)) = v)
   \<and> (status_c c = CConnecting \<or> status_c c = CSent \<or> status_c c = CError \<longrightarrow>
        client_step c (SignatureChange v) = c)
   \<and> (status_c c = CSending \<longrightarrow> button_disabled c \<and> client_step c ClickSend = c)
   \<and> (status_c c = CReady \<longrightarrow>
        (button_disabled c \<longleftrightarrow> \<not> truthy_str (signatureDataUrl c))
        \<and> client_step c ClickSend = sendSignature c)"
proof (intro conjI impI)
  assume n: "status_c c \<noteq> CReady"
  show "status_c (client_step c e) = CReady \<longleftrightarrow> e = MConnOpen \<and> connRef c \<noteq> None"
  proof (cases "e = MConnOpen")
    case True
    with n show ?thesis by simp
  next
    case False
    with step_not_ready [OF n False] show ?thesis by simp
  qed
next
  show "pad_rendered c \<longleftrightarrow> status_c c = CReady \<or> status_c c = CSending"
    by (simp add: pad_rendered_def)
next
  assume "status_c c = CReady \<or> status_c c = CSending"
  then show "signatureDataUrl (client_step c (SignatureChange v)) = v"
    by (simp add: pad_rendered_def)
next
  assume "status_c c = CConnecting \<or> status_c c = CSent \<or> status_c c = CError"
  then show "client_step c (SignatureChange v) = c"
    by (auto simp: pad_rendered_def)
next
  assume s: "status_c c = CSending"
  then show "button_disabled c" by (simp add: button_disabled_def)
  then show "client_step c ClickSend = c" by simp
next
  assume r: "status_c c = CReady"
  then show "button_disabled c \<longleftrightarrow> \<not> truthy_str (signatureDataUrl c)"
    by (simp add: button_disabled_def)
  show "client_step c ClickSend = sendSignature c"
  proof (cases "truthy_str (signatureDataUrl c)")
    case True
    with r show ?thesis by (simp add: pad_rendered_def button_disabled_def)
  next
    case False
    then have "sendSignature c = c" by (rule sendSignature_none)
    with r False show ?thesis by (simp add: pad_rendered_def button_disabled_def)
  qed
qed

theorem ready_and_drawing_surface_witness:
  "status_c (client_step (client_init (ascii ''ABC123'')) MPeerOpen) = CConnecting
   \<and> status_c (client_step (client_step (client_init (ascii ''ABC123'')) MPeerOpen) MConnOpen) = CReady
   \<and> client_step (client_step (client_init (ascii ''ABC123'')) MPeerOpen) (SignatureChange (Some (ascii ''x'')))
       = client_step (client_init (ascii ''ABC123'')) MPeerOpen
   \<and> status_c (client_run (client_init (ascii ''ABC123''))
        [MPeerOpen, MConnOpen, SignatureChange (Some (ascii ''x'')), ClickSend]) = CSending
   \<and> button_disabled (client_run (client_init (ascii ''ABC123''))
        [MPeerOpen, MConnOpen, SignatureChange (Some (ascii ''x'')), ClickSend])"
proof -
  let ?c = "client_step (client_init (ascii ''ABC123'')) MPeerOpen"
  let ?s = "client_run (client_init (ascii ''ABC123''))
        [MPeerOpen, MConnOpen, SignatureChange (Some (ascii ''x'')), ClickSend]"
  have c: "status_c ?c = CConnecting" "connRef ?c \<noteq> None"
    by (simp_all add: client_init_def)
  with ready_and_drawing_surface [of ?c MConnOpen "Some (ascii ''x'')"]
  have "status_c (client_step ?c MConnOpen) = CReady"
    and "client_step ?c (SignatureChange (Some (ascii ''x''))) = ?c"
    by simp_all
  moreover have s: "status_c ?s = CSending"
    by (simp add: client_run_def client_init_def pad_rendered_def button_disabled_def
        sendSignature_def ascii_def)
  moreover from s ready_and_drawing_surface [of ?s MConnOpen None]
  have "button_disabled ?s" by blast
  ultimately show ?thesis using c(1) by simp
qed

text \<open>
  As stated, the claim fails in the state Sending: right after the click on the submit
  button the pad is still rendered, and a new drawing replaces the captured one.
\<close>

theorem drawing_surface_counterexample:
  "status_c (client_run (client_init (ascii ''ABC123''))
      [MPeerOpen, MConnOpen, SignatureChange (Some (ascii ''data:image/png;base64,AAA'')), ClickSend])
     = CSending
   \<and> pad_rendered (client_run (client_init (ascii ''ABC123''))
      [MPeerOpen, MConnOpen, SignatureChange (Some (ascii ''data:image/png;base64,AAA'')), ClickSend])
   \<and> signatureDataUrl (client_run (client_init (ascii ''ABC123''))
      [MPeerOpen, MConnOpen, SignatureChange (Some (ascii ''data:image/png;base64,AAA'')), ClickSend,
       SignatureChange (Some (ascii ''data:image/png;base64,BBB''))])
     = Some (ascii ''data:image/png;base64,BBB'')"
  by (simp add: client_run_def client_init_def pad_rendered_def button_disabled_def
      sendSignature_def ascii_def)


section \<open>The happy path\<close>

text \<open>
  Claim C3, as amended. Once the host's endpoint opens with the id \<^verbatim>\<open>ABC123\<close>, the host
  renders the QR code of \<^verbatim>\<open><origin><path>#/sign/ABC123\<close>. A client with
  \<^verbatim>\<open>targetPeerId = "ABC123"\<close> whose connection reports \<^verbatim>\<open>open\<close> is Ready. When the
  drawing \<^verbatim>\<open>data:image/png;base64,AAA\<close> is captured and sent, the one message on the wire
  is the object \<^verbatim>\<open>{ type: "signature", dataUrl: "data:image/png;base64,AAA" }\<close>. On the
  data event with this object the host calls \<^verbatim>\<open>onSignature\<close> with exactly that string,
  once, and its state is Received.
\<close>

theorem happy_path:
  "qr_code (render_host origin pathname (host_run host_init [PeerOpen (ascii ''ABC123'')]))
     = Some (origin @ pathname @ ascii ''#/sign/ABC123'')
   \<and> status_c (client_run (client_init (ascii ''ABC123'')) [MPeerOpen, MConnOpen]) = CReady
   \<and> send_calls (client_run (client_init (ascii ''ABC123''))
        [MPeerOpen, MConnOpen, SignatureChange (Some (ascii ''data:image/png;base64,AAA'')), ClickSend])
     = [(\<lparr>target = ascii ''ABC123'', reliable = True\<rparr>,
         JObj [(ascii ''type'', JStr (ascii ''signature'')),
               (ascii ''dataUrl'', JStr (ascii ''data:image/png;base64,AAA''))])]
   \<and> onSignature_calls (host_run host_init
        [PeerOpen (ascii ''ABC123''), PeerConnection k,
         ConnData k (JObj [(ascii ''type'', JStr (ascii ''signature'')),
                           (ascii ''dataUrl'', JStr (ascii ''data:image/png;base64,AAA''))])])
     = [JStr (ascii ''data:image/png;base64,AAA'')]
   \<and> host_state (host_run host_init
        [PeerOpen (ascii ''ABC123''), PeerConnection k,
         ConnData k (JObj [(ascii ''type'', JStr (ascii ''signature'')),
                           (ascii ''dataUrl'', JStr (ascii ''data:image/png;base64,AAA''))])])
     = Received"
proof (intro conjI)
  show "qr_code (render_host origin pathname (host_run host_init [PeerOpen (ascii ''ABC123'')]))
     = Some (origin @ pathname @ ascii ''#/sign/ABC123'')"
    by (simp add: render_host_def host_run_def host_init_def signingUrl_def ascii_def)
  show "status_c (client_run (client_init (ascii ''ABC123'')) [MPeerOpen, MConnOpen]) = CReady"
    by (simp add: client_run_def client_init_def)
  show "send_calls (client_run (client_init (ascii ''ABC123''))
        [MPeerOpen, MConnOpen, SignatureChange (Some (ascii ''data:image/png;base64,AAA'')), ClickSend])
     = [(\<lparr>target = ascii ''ABC123'', reliable = True\<rparr>,
         JObj [(ascii ''type'', JStr (ascii ''signature'')),
               (ascii ''dataUrl'', JStr (ascii ''data:image/png;base64,AAA''))])]"
    by (simp add: client_run_def client_init_def pad_rendered_def button_disabled_def
        sendSignature_def signature_payload_def ascii_def)
  let ?h = "host_run host_init
        [PeerOpen (ascii ''ABC123''), PeerConnection k,
         ConnData k (JObj [(ascii ''type'', JStr (ascii ''signature'')),
                           (ascii ''dataUrl'', JStr (ascii ''data:image/png;base64,AAA''))])]"
  have a: "accepts (JObj [(ascii ''type'', JStr (ascii ''signature'')),
                           (ascii ''dataUrl'', JStr (ascii ''data:image/png;base64,AAA''))])"
    by (simp add: accepts_def ascii_def)
  show "onSignature_calls ?h = [JStr (ascii ''data:image/png;base64,AAA'')]"
    using a by (simp add: host_run_def host_init_def on_data_def ascii_def)
  show "host_state ?h = Received"
    using a by (simp add: host_run_def host_init_def on_data_def host_state_def)
qed

theorem happy_path_witness:
  "host_state (host_run host_init
        [PeerOpen (ascii ''ABC123''), PeerConnection 0,
         ConnData 0 (JObj [(ascii ''type'', JStr (ascii ''signature'')),
                           (ascii ''dataUrl'', JStr (ascii ''data:image/png;base64,AAA''))])])
     = Received
   \<and> qr_code (render_host (ascii ''https://example.org'') (ascii ''/'')
        (host_run host_init [PeerOpen (ascii ''ABC123'')]))
     = Some (ascii ''https://example.org/#/sign/ABC123'')"
  using happy_path [of "ascii ''https://example.org''" "ascii ''/''" 0]
  by (simp add: ascii_def)

text \<open>
  As stated, the claim fails on the names of the wire payload: a connected host that
  receives \<^verbatim>\<open>{ kind: "signature", image: "data:image/png;base64,AAA" }\<close> ignores it
  (no call of \<^verbatim>\<open>onSignature\<close>, state still Connected), and the object the client sends
  is a different one.
\<close>

theorem happy_path_counterexample:
  "host_state (host_run host_init [PeerOpen (ascii ''ABC123''), PeerConnection 0]) = Connected
   \<and> host_run host_init
        [PeerOpen (ascii ''ABC123''), PeerConnection 0,
         ConnData 0 (JObj [(ascii ''kind'', JStr (ascii ''signature'')),
                           (ascii ''image'', JStr (ascii ''data:image/png;base64,AAA''))])]
     = host_run host_init [PeerOpen (ascii ''ABC123''), PeerConnection 0]
   \<and> onSignature_calls (host_run host_init
        [PeerOpen (ascii ''ABC123''), PeerConnection 0,
         ConnData 0 (JObj [(ascii ''kind'', JStr (ascii ''signature'')),
                           (ascii ''image'', JStr (ascii ''data:image/png;base64,AAA''))])])
     = []
   \<and> signature_payload (ascii ''data:image/png;base64,AAA'')
     \<noteq> JObj [(ascii ''kind'', JStr (ascii ''signature'')),
             (ascii ''image'', JStr (ascii ''data:image/png;base64,AAA''))]"
  by (simp add: host_run_def host_init_def host_state_def on_data_def accepts_def
      signature_payload_def ascii_def)

end
